theory Spec2Isabelle
  imports Complex_Main "HOL-Library.Multiset"
begin

section \<open>Tables\<close>

text \<open>
  The program reads three CSV files into data frames. A frame is modelled as the list of
  its rows, in row order; a row is a record of its columns. Zip codes are read by
  \<^verbatim>\<open>read_csv\<close> as integers, rates as numbers (exact rationals here), and a blank or
  undefined rate (\<^verbatim>\<open>NaN\<close>) is \<open>None\<close>.
\<close>

record zips_row =
  z_zipcode :: int
  z_state :: string
  z_county_code :: int
  z_name :: string
  z_rate_area :: int

record plans_row =
  p_plan_id :: string
  p_state :: string
  p_metal_level :: string
  p_rate :: rat
  p_rate_area :: int

text \<open>The frame after the inner join on \<^verbatim>\<open>rate_area\<close> (the state columns are dropped before).\<close>

record zip_plans_row =
  zp_zipcode :: int
  zp_county_code :: int
  zp_name :: string
  zp_rate_area :: string
  zp_plan_id :: string
  zp_metal_level :: string
  zp_rate :: rat

text \<open>\<^verbatim>\<open>silver_rates_df\<close> after the unused columns are dropped.\<close>

record silver_row =
  s_zipcode :: int
  s_rate_area :: string
  s_rate :: rat

text \<open>\<^verbatim>\<open>silver_rates_df\<close> with the two per-zip-code count columns.\<close>

record silver_rates_row =
  c_zipcode :: int
  c_rate_area :: string
  c_rate :: rat
  unique_area_count :: nat
  unique_rate_count :: nat

text \<open>The target file and the result: a zip code and an optional rate.\<close>

record slcsp_row =
  zipcode :: int
  rate :: "rat option"

datatype error = KeyError string

section \<open>The rating-area key\<close>

fun str_nat :: "nat \<Rightarrow> string" where
  "str_nat n =
     (if n < 10 then [''0123456789'' ! n]
      else str_nat (n div 10) @ [''0123456789'' ! (n mod 10)])"

declare str_nat.simps [simp del]

definition astype_str :: "int \<Rightarrow> string" where
  "astype_str i = (if i < 0 then CHR ''-'' # str_nat (nat (- i)) else str_nat (nat i))"

text \<open>\<^verbatim>\<open>df['state'] + ' ' + df['rate_area'].astype(str)\<close>\<close>

definition combine_rate_area :: "string \<Rightarrow> int \<Rightarrow> string" where
  "combine_rate_area st n = st @ '' '' @ astype_str n"

definition z_key :: "zips_row \<Rightarrow> string" where
  "z_key z = combine_rate_area (z_state z) (z_rate_area z)"

definition p_key :: "plans_row \<Rightarrow> string" where
  "p_key p = combine_rate_area (p_state p) (p_rate_area p)"

section \<open>Frame operations\<close>

definition join_row :: "zips_row \<Rightarrow> plans_row \<Rightarrow> zip_plans_row" where
  "join_row z p =
     \<lparr>zp_zipcode = z_zipcode z, zp_county_code = z_county_code z, zp_name = z_name z,
      zp_rate_area = z_key z, zp_plan_id = p_plan_id p,
      zp_metal_level = p_metal_level p, zp_rate = p_rate p\<rparr>"

text \<open>
  \<^verbatim>\<open>pd.merge(zips_df, plans_df, on='rate_area')\<close>: the inner join, the rows of the left
  frame in order, each with its matching rows of the right frame in order.
\<close>

definition merge_on_rate_area :: "zips_row list \<Rightarrow> plans_row list \<Rightarrow> zip_plans_row list" where
  "merge_on_rate_area zips_df plans_df =
     concat (map (\<lambda>z. map (join_row z) (filter (\<lambda>p. p_key p = z_key z) plans_df)) zips_df)"

definition is_silver :: "zip_plans_row \<Rightarrow> bool" where
  "is_silver r \<longleftrightarrow> zp_metal_level r = ''Silver''"

definition drop_columns :: "zip_plans_row \<Rightarrow> silver_row" where
  "drop_columns r = \<lparr>s_zipcode = zp_zipcode r, s_rate_area = zp_rate_area r, s_rate = zp_rate r\<rparr>"

text \<open>\<^verbatim>\<open>drop_duplicates(subset=...)\<close> keeps the first row of each key.\<close>

fun drop_duplicates :: "('a \<Rightarrow> 'k) \<Rightarrow> 'a list \<Rightarrow> 'a list" where
  "drop_duplicates key [] = []"
| "drop_duplicates key (x # xs) = x # drop_duplicates key (filter (\<lambda>y. key y \<noteq> key x) xs)"

text \<open>With \<^verbatim>\<open>keep='last'\<close> the last row of each key stays, in its place.\<close>

definition drop_duplicates_last :: "('a \<Rightarrow> 'k) \<Rightarrow> 'a list \<Rightarrow> 'a list" where
  "drop_duplicates_last key xs = rev (drop_duplicates key (rev xs))"

definition subset_key :: "silver_row \<Rightarrow> int \<times> string \<times> rat" where
  "subset_key r = (s_zipcode r, s_rate_area r, s_rate r)"

definition nunique :: "'a list \<Rightarrow> nat" where
  "nunique xs = length (remdups xs)"

text \<open>\<^verbatim>\<open>df.groupby('zipcode')[col].transform('nunique')\<close>, the value for the rows of zip code \<open>z\<close>.\<close>

definition group_nunique :: "(silver_row \<Rightarrow> 'c) \<Rightarrow> silver_row list \<Rightarrow> int \<Rightarrow> nat" where
  "group_nunique col df z = nunique (map col (filter (\<lambda>r. s_zipcode r = z) df))"

definition count_row :: "silver_row list \<Rightarrow> silver_row \<Rightarrow> silver_rates_row" where
  "count_row df r =
     \<lparr>c_zipcode = s_zipcode r, c_rate_area = s_rate_area r, c_rate = s_rate r,
      unique_area_count = group_nunique s_rate_area df (s_zipcode r),
      unique_rate_count = group_nunique s_rate df (s_zipcode r)\<rparr>"

definition add_counts :: "silver_row list \<Rightarrow> silver_rates_row list" where
  "add_counts df = map (count_row df) df"

text \<open>
  \<^verbatim>\<open>df.groupby('zipcode')['rate'].nsmallest(n)\<close>: the groups in ascending order of the
  zip code, and in each group its \<open>n\<close> smallest rates in ascending order. The second index
  level (the row label) is left out of the model.
\<close>

definition groupby_nsmallest :: "nat \<Rightarrow> silver_rates_row list \<Rightarrow> (int \<times> rat) list" where
  "groupby_nsmallest n df =
     concat (map (\<lambda>z. map (Pair z) (take n (sort (map c_rate (filter (\<lambda>r. c_zipcode r = z) df)))))
                 (sort (remdups (map c_zipcode df))))"

text \<open>
  \<^verbatim>\<open>.reset_index().drop('level_1', 1)\<close>. A group-by over a frame without rows gives a
  series indexed by the group key alone, so that \<^verbatim>\<open>reset_index\<close> makes no column
  \<^verbatim>\<open>level_1\<close> and \<^verbatim>\<open>drop\<close> raises \<^verbatim>\<open>KeyError\<close>; with at least one group the index
  has the two levels and the column is dropped.
\<close>

definition reset_index_drop_level_1 :: "(int \<times> rat) list \<Rightarrow> error + (int \<times> rat) list" where
  "reset_index_drop_level_1 s = (if s = [] then Inl (KeyError ''level_1'') else Inr s)"

section \<open>The program\<close>

text \<open>Lines 28 to 33: join, keep the Silver rows, drop the unused columns.\<close>

definition silver_rates :: "zips_row list \<Rightarrow> plans_row list \<Rightarrow> silver_row list" where
  "silver_rates zips_df plans_df =
     map drop_columns (filter is_silver (merge_on_rate_area zips_df plans_df))"

text \<open>Lines 40 to 42: drop the duplicate rows, then count per zip code.\<close>

definition silver_rates_df :: "zips_row list \<Rightarrow> plans_row list \<Rightarrow> silver_rates_row list" where
  "silver_rates_df zips_df plans_df =
     add_counts (drop_duplicates subset_key (silver_rates zips_df plans_df))"

definition no_lowest_df :: "silver_rates_row list \<Rightarrow> slcsp_row list" where
  "no_lowest_df df =
     map (\<lambda>r. \<lparr>zipcode = c_zipcode r, rate = None\<rparr>)
       (drop_duplicates c_zipcode
          (filter (\<lambda>r. unique_area_count r > 1 \<or> unique_rate_count r = 1) df))"

definition second_lowest_series :: "silver_rates_row list \<Rightarrow> (int \<times> rat) list" where
  "second_lowest_series df =
     groupby_nsmallest 2 (filter (\<lambda>r. unique_area_count r = 1 \<and> unique_rate_count r > 1) df)"

definition find_slcsp :: "zips_row list \<Rightarrow> plans_row list \<Rightarrow> error + slcsp_row list" where
  "find_slcsp zips_df plans_df =
     (let df = silver_rates_df zips_df plans_df in
      case reset_index_drop_level_1 (second_lowest_series df) of
        Inl e \<Rightarrow> Inl e
      | Inr s \<Rightarrow>
          Inr (map (\<lambda>(z, v). \<lparr>zipcode = z, rate = Some v\<rparr>) (drop_duplicates_last fst s)
               @ no_lowest_df df))"

text \<open>
  \<^verbatim>\<open>pd.merge(slcsp_df, second_lowest_data, on='zipcode', how='left')\<close>: every row of the
  left frame in order, with each matching row of the right frame, or once with an undefined
  rate when none matches.
\<close>

definition merge_left :: "int list \<Rightarrow> slcsp_row list \<Rightarrow> slcsp_row list" where
  "merge_left slcsp_df data =
     concat (map (\<lambda>z. case filter (\<lambda>r. zipcode r = z) data of
                         [] \<Rightarrow> [\<lparr>zipcode = z, rate = None\<rparr>]
                       | ms \<Rightarrow> map (\<lambda>m. \<lparr>zipcode = z, rate = rate m\<rparr>) ms) slcsp_df)"

text \<open>The table that \<^verbatim>\<open>output_slcsp\<close> prints; the rate column of the target file is dropped.\<close>

definition output_slcsp :: "zips_row list \<Rightarrow> plans_row list \<Rightarrow> slcsp_row list \<Rightarrow> error + slcsp_row list" where
  "output_slcsp zips_df plans_df slcsp_file =
     (case find_slcsp zips_df plans_df of
        Inl e \<Rightarrow> Inl e
      | Inr second_lowest_data \<Rightarrow> Inr (merge_left (map zipcode slcsp_file) second_lowest_data))"

section \<open>The specification's view\<close>

text \<open>
  The candidate set of a zip code, as the specification describes it: the rating areas and
  the rates reachable from the zip code through the zip-area table and the Silver plans.
\<close>

definition zip_areas :: "zips_row list \<Rightarrow> plans_row list \<Rightarrow> int \<Rightarrow> string set" where
  "zip_areas zs ps z =
     set [z_key zr. zr \<leftarrow> zs, z_zipcode zr = z, p \<leftarrow> ps, p_key p = z_key zr, p_metal_level p = ''Silver'']"

definition zip_rates :: "zips_row list \<Rightarrow> plans_row list \<Rightarrow> int \<Rightarrow> rat set" where
  "zip_rates zs ps z =
     set [p_rate p. zr \<leftarrow> zs, z_zipcode zr = z, p \<leftarrow> ps, p_key p = z_key zr, p_metal_level p = ''Silver'']"

text \<open>The second-smallest element of a set of rates, in ascending order.\<close>

definition second_smallest :: "rat set \<Rightarrow> rat" where
  "second_smallest R = sorted_list_of_set R ! 1"

text \<open>The selection rule: a rate exactly for one rating area and at least two distinct rates.\<close>

definition selectRates :: "zips_row list \<Rightarrow> plans_row list \<Rightarrow> int \<Rightarrow> rat option" where
  "selectRates zs ps z =
     (if card (zip_areas zs ps z) = 1 \<and> 2 \<le> card (zip_rates zs ps z)
      then Some (second_smallest (zip_rates zs ps z)) else None)"

text \<open>Step 2 of the resolver as the specification words it: restrict the plans to Silver, then join.\<close>

definition silver_subset :: "plans_row list \<Rightarrow> plans_row list" where
  "silver_subset plans = filter (\<lambda>p. p_metal_level p = ''Silver'') plans"

definition buildCandidateSets_join :: "zips_row list \<Rightarrow> plans_row list \<Rightarrow> silver_row list" where
  "buildCandidateSets_join zs plans = map drop_columns (merge_on_rate_area zs (silver_subset plans))"

section \<open>Scenario inputs\<close>

text \<open>Rows of the two tables with the columns that play no role left blank.\<close>

definition zips_line :: "int \<Rightarrow> string \<Rightarrow> int \<Rightarrow> zips_row" where
  "zips_line z st a =
     \<lparr>z_zipcode = z, z_state = st, z_county_code = 0, z_name = [], z_rate_area = a\<rparr>"

definition plans_line :: "string \<Rightarrow> string \<Rightarrow> string \<Rightarrow> rat \<Rightarrow> int \<Rightarrow> plans_row" where
  "plans_line i st m r a =
     \<lparr>p_plan_id = i, p_state = st, p_metal_level = m, p_rate = r, p_rate_area = a\<rparr>"

definition ny1_zips :: "zips_row list" where
  "ny1_zips = [zips_line 11111 ''NY'' 1, zips_line 22222 ''NY'' 2]"

definition ny1_zips_perm :: "zips_row list" where
  "ny1_zips_perm = [zips_line 22222 ''NY'' 2, zips_line 11111 ''NY'' 1]"

definition ny1_plans :: "plans_row list" where
  "ny1_plans = [plans_line ''P1'' ''NY'' ''Silver'' 200 1, plans_line ''P2'' ''NY'' ''Silver'' 150 1,
     plans_line ''P4'' ''NY'' ''Silver'' 300 2]"

definition ny1_extra :: "plans_row list" where
  "ny1_extra = [plans_line ''P3'' ''NY'' ''Silver'' 150 1]"

definition ny1_plans_dup :: "plans_row list" where
  "ny1_plans_dup = [plans_line ''P3'' ''NY'' ''Silver'' 150 1, plans_line ''P4'' ''NY'' ''Silver'' 300 2,
     plans_line ''P2'' ''NY'' ''Silver'' 150 1, plans_line ''P1'' ''NY'' ''Silver'' 200 1]"

section \<open>Dropping duplicates\<close>

lemma filter_drop_duplicates:
  "filter (\<lambda>x. key x = k) (drop_duplicates key xs) =
     (case filter (\<lambda>x. key x = k) xs of [] \<Rightarrow> [] | y # _ \<Rightarrow> [y])"
proof (induction key xs rule: drop_duplicates.induct)
  case (1 key)
  then show ?case by simp
next
  case (2 key x xs)
  have eq: "key x \<noteq> k \<Longrightarrow>
      filter (\<lambda>y. key y = k) (filter (\<lambda>y. key y \<noteq> key x) xs) = filter (\<lambda>y. key y = k) xs"
    by (auto intro: filter_cong)
  have ne: "key x = k \<Longrightarrow> filter (\<lambda>y. key y = k) (filter (\<lambda>y. key y \<noteq> key x) xs) = []"
    by (auto simp: filter_empty_conv)
  show ?case
  proof (cases "key x = k")
    case True
    with 2 ne show ?thesis by simp
  next
    case False
    with 2 eq show ?thesis by simp
  qed
qed

lemma set_drop_duplicates_subset: "set (drop_duplicates key xs) \<subseteq> set xs"
  by (induction key xs rule: drop_duplicates.induct) auto

lemma key_set_drop_duplicates: "key ` set (drop_duplicates key xs) = key ` set xs"
  by (induction key xs rule: drop_duplicates.induct) auto

lemma distinct_key_drop_duplicates: "distinct (map key (drop_duplicates key xs))"
proof (induction key xs rule: drop_duplicates.induct)
  case (1 key)
  then show ?case by simp
next
  case (2 key x xs)
  have "key x \<notin> key ` set (drop_duplicates key (filter (\<lambda>y. key y \<noteq> key x) xs))"
    using set_drop_duplicates_subset [of key "filter (\<lambda>y. key y \<noteq> key x) xs"] by auto
  with 2 show ?case by simp
qed

lemma set_drop_duplicates_inj:
  assumes "inj_on key (set xs)"
  shows "set (drop_duplicates key xs) = set xs"
proof
  show "set (drop_duplicates key xs) \<subseteq> set xs" by (rule set_drop_duplicates_subset)
  show "set xs \<subseteq> set (drop_duplicates key xs)"
  proof
    fix x assume x: "x \<in> set xs"
    then have "key x \<in> key ` set (drop_duplicates key xs)"
      by (simp add: key_set_drop_duplicates)
    then obtain y where y: "y \<in> set (drop_duplicates key xs)" "key y = key x" by auto
    with set_drop_duplicates_subset [of key xs] have "y \<in> set xs" by auto
    with assms x y have "y = x" by (auto dest: inj_onD)
    with y show "x \<in> set (drop_duplicates key xs)" by simp
  qed
qed

lemma filter_drop_duplicates_last:
  "filter (\<lambda>x. key x = k) (drop_duplicates_last key xs) =
     (if filter (\<lambda>x. key x = k) xs = [] then [] else [last (filter (\<lambda>x. key x = k) xs)])"
proof -
  have "filter (\<lambda>x. key x = k) (drop_duplicates_last key xs) =
      rev (case rev (filter (\<lambda>x. key x = k) xs) of [] \<Rightarrow> [] | y # _ \<Rightarrow> [y])"
    by (simp add: drop_duplicates_last_def rev_filter [symmetric] filter_drop_duplicates)
  also have "\<dots> = (if filter (\<lambda>x. key x = k) xs = [] then [] else [last (filter (\<lambda>x. key x = k) xs)])"
    by (cases "filter (\<lambda>x. key x = k) xs" rule: rev_cases) auto
  finally show ?thesis .
qed

lemma concat_map_single:
  "distinct ks \<Longrightarrow> z \<in> set ks \<Longrightarrow> concat (map (\<lambda>k. if k = z then g k else []) ks) = g z"
proof (induction ks)
  case Nil
  then show ?case by simp
next
  case (Cons k ks)
  have none: "z \<notin> set ks \<Longrightarrow> concat (map (\<lambda>k. if k = z then g k else []) ks) = []"
    by (induction ks) auto
  from Cons none show ?case by (cases "k = z") auto
qed

lemma concat_map_none:
  "z \<notin> set ks \<Longrightarrow> concat (map (\<lambda>k. if k = z then g k else []) ks) = []"
  by (induction ks) auto

lemma distinct_key_if_filter_le_1:
  "(\<And>k. length (filter (\<lambda>x. key x = k) xs) \<le> 1) \<Longrightarrow> distinct (map key xs)"
proof (induction xs)
  case Nil
  then show ?case by simp
next
  case (Cons x xs)
  have le: "length (filter (\<lambda>y. key y = k) xs) \<le> 1" for k
    using Cons.prems [of k] by (simp split: if_splits)
  have "key x \<notin> key ` set xs"
  proof
    assume "key x \<in> key ` set xs"
    then have "filter (\<lambda>y. key y = key x) xs \<noteq> []"
      by (auto simp: filter_empty_conv)
    then have "1 \<le> length (filter (\<lambda>y. key y = key x) xs)"
      by (simp add: Suc_le_eq)
    with Cons.prems [of "key x"] show False by simp
  qed
  with Cons.IH le show ?case by simp
qed

section \<open>The joined frame and the candidate sets\<close>

lemma set_merge_on_rate_area:
  "set (merge_on_rate_area zs ps) =
     {join_row z p | z p. z \<in> set zs \<and> p \<in> set ps \<and> p_key p = z_key z}"
  by (auto simp: merge_on_rate_area_def)

lemma drop_columns_join_row:
  "drop_columns (join_row z p) = \<lparr>s_zipcode = z_zipcode z, s_rate_area = z_key z, s_rate = p_rate p\<rparr>"
  by (simp add: drop_columns_def join_row_def)

lemma is_silver_join_row: "is_silver (join_row z p) \<longleftrightarrow> p_metal_level p = ''Silver''"
  by (simp add: is_silver_def join_row_def)

lemma set_silver_rates:
  "set (silver_rates zs ps) =
     {\<lparr>s_zipcode = z_zipcode z, s_rate_area = z_key z, s_rate = p_rate p\<rparr> | z p.
        z \<in> set zs \<and> p \<in> set ps \<and> p_key p = z_key z \<and> p_metal_level p = ''Silver''}"
  (is "?L = ?R")
proof -
  have "set (filter is_silver (merge_on_rate_area zs ps)) =
      {join_row z p | z p. z \<in> set zs \<and> p \<in> set ps \<and> p_key p = z_key z \<and> p_metal_level p = ''Silver''}"
    by (auto simp: set_merge_on_rate_area is_silver_join_row) blast
  then have "?L = drop_columns `
      {join_row z p | z p. z \<in> set zs \<and> p \<in> set ps \<and> p_key p = z_key z \<and> p_metal_level p = ''Silver''}"
    by (simp add: silver_rates_def del: set_filter)
  also have "\<dots> = ?R"
  proof (intro set_eqI iffI)
    fix r
    assume "r \<in> drop_columns `
      {join_row z p | z p. z \<in> set zs \<and> p \<in> set ps \<and> p_key p = z_key z \<and> p_metal_level p = ''Silver''}"
    then obtain z p where "z \<in> set zs" "p \<in> set ps" "p_key p = z_key z"
      "p_metal_level p = ''Silver''" "r = drop_columns (join_row z p)"
      by auto
    then show "r \<in> ?R"
      unfolding drop_columns_join_row by blast
  next
    fix r
    assume "r \<in> ?R"
    then obtain z p where zp: "z \<in> set zs" "p \<in> set ps" "p_key p = z_key z"
      "p_metal_level p = ''Silver''"
      and "r = \<lparr>s_zipcode = z_zipcode z, s_rate_area = z_key z, s_rate = p_rate p\<rparr>"
      by auto
    then have "r = drop_columns (join_row z p)"
      by (simp add: drop_columns_join_row)
    with zp show "r \<in> drop_columns `
      {join_row z p | z p. z \<in> set zs \<and> p \<in> set ps \<and> p_key p = z_key z \<and> p_metal_level p = ''Silver''}"
      by blast
  qed
  finally show ?thesis .
qed

lemma inj_subset_key: "inj subset_key"
  by (rule injI) (simp add: subset_key_def)

lemma set_dedup: "set (drop_duplicates subset_key df) = set df"
  by (rule set_drop_duplicates_inj) (rule inj_on_subset [OF inj_subset_key subset_UNIV])

lemma distinct_dedup: "distinct (drop_duplicates subset_key df)"
  using distinct_key_drop_duplicates [of subset_key df] by (simp add: distinct_map)

lemma zip_rates_frame:
  "zip_rates zs ps z = s_rate ` {r \<in> set (silver_rates zs ps). s_zipcode r = z}"
  by (auto simp: zip_rates_def set_silver_rates image_iff) force+

lemma zip_areas_frame:
  "zip_areas zs ps z = s_rate_area ` {r \<in> set (silver_rates zs ps). s_zipcode r = z}"
  by (auto simp: zip_areas_def set_silver_rates image_iff) force+

lemma zip_rates_set:
  "zip_rates zs ps z = {p_rate p | zr p. zr \<in> set zs \<and> z_zipcode zr = z \<and> p \<in> set ps \<and>
     p_key p = z_key zr \<and> p_metal_level p = ''Silver''}"
  by (auto simp: zip_rates_def; blast)

lemma zip_areas_set:
  "zip_areas zs ps z = {z_key zr | zr p. zr \<in> set zs \<and> z_zipcode zr = z \<and> p \<in> set ps \<and>
     p_key p = z_key zr \<and> p_metal_level p = ''Silver''}"
  by (auto simp: zip_areas_def; blast)

lemma zip_areas_empty_iff: "zip_areas zs ps z = {} \<longleftrightarrow> zip_rates zs ps z = {}"
  by (simp add: zip_areas_frame zip_rates_frame)

lemma finite_zip_areas: "finite (zip_areas zs ps z)"
  by (simp add: zip_areas_def)

lemma finite_zip_rates: "finite (zip_rates zs ps z)"
  by (simp add: zip_rates_def)

lemma group_nunique_card:
  "group_nunique col df z = card (col ` {r \<in> set df. s_zipcode r = z})"
proof -
  have "set (map col (filter (\<lambda>r. s_zipcode r = z) df)) = col ` {r \<in> set df. s_zipcode r = z}"
    by auto
  then show ?thesis
    by (simp add: group_nunique_def nunique_def length_remdups_card_conv del: set_map set_filter)
qed

lemma area_count_dedup:
  "group_nunique s_rate_area (drop_duplicates subset_key (silver_rates zs ps)) z = card (zip_areas zs ps z)"
  by (simp only: group_nunique_card set_dedup zip_areas_frame)

lemma rate_count_dedup:
  "group_nunique s_rate (drop_duplicates subset_key (silver_rates zs ps)) z = card (zip_rates zs ps z)"
  by (simp only: group_nunique_card set_dedup zip_rates_frame)

lemma group_rates_dedup:
  "set (map s_rate (filter (\<lambda>r. s_zipcode r = z) (drop_duplicates subset_key (silver_rates zs ps)))) =
     zip_rates zs ps z"
  by (simp add: set_dedup zip_rates_frame)

section \<open>The two groups\<close>

lemma filter_add_counts:
  "filter (\<lambda>r. Q (unique_area_count r) (unique_rate_count r) \<and> c_zipcode r = z) (add_counts df) =
     (if Q (group_nunique s_rate_area df z) (group_nunique s_rate df z)
      then map (count_row df) (filter (\<lambda>r. s_zipcode r = z) df) else [])"
proof -
  have "filter (\<lambda>r. Q (unique_area_count r) (unique_rate_count r) \<and> c_zipcode r = z)
          (map (count_row df) df) =
        map (count_row df)
          (filter (\<lambda>r. Q (group_nunique s_rate_area df z) (group_nunique s_rate df z) \<and> s_zipcode r = z) df)"
    unfolding filter_map by (rule arg_cong [where f = "map (count_row df)"], rule filter_cong)
      (auto simp: count_row_def)
  then show ?thesis
    by (simp add: add_counts_def)
qed

lemma filter_fst_Pair:
  "filter (\<lambda>x. fst x = z) (map (Pair k) l) = (if k = z then map (Pair k) l else [])"
  by (induction l) auto

lemma filter_groupby_nsmallest:
  "filter (\<lambda>x. fst x = z) (groupby_nsmallest n df) =
     map (Pair z) (take n (sort (map c_rate (filter (\<lambda>r. c_zipcode r = z) df))))"
proof -
  let ?g = "\<lambda>k. map (Pair k) (take n (sort (map c_rate (filter (\<lambda>r. c_zipcode r = k) df))))"
  let ?ks = "sort (remdups (map c_zipcode df))"
  have "filter (\<lambda>x. fst x = z) (groupby_nsmallest n df) =
      concat (map (\<lambda>k. if k = z then ?g k else []) ?ks)"
    by (simp add: groupby_nsmallest_def filter_concat comp_def filter_fst_Pair)
  also have "\<dots> = ?g z"
  proof (cases "z \<in> set ?ks")
    case True
    moreover have "distinct ?ks" by simp
    ultimately show ?thesis by (rule concat_map_single [rotated])
  next
    case False
    then have "filter (\<lambda>r. c_zipcode r = z) df = []"
      by (auto simp: filter_empty_conv)
    with False show ?thesis
      by (simp add: concat_map_none del: set_sort set_remdups)
  qed
  finally show ?thesis .
qed

lemma distinct_group_rates:
  fixes df :: "silver_row list"
  assumes "distinct df" and "card (s_rate_area ` {r \<in> set df. s_zipcode r = z}) = 1"
  shows "distinct (map s_rate (filter (\<lambda>r. s_zipcode r = z) df))"
proof -
  have "inj_on s_rate {r \<in> set df. s_zipcode r = z}"
  proof (rule inj_onI)
    fix r r'
    assume r: "r \<in> {r \<in> set df. s_zipcode r = z}" and r': "r' \<in> {r \<in> set df. s_zipcode r = z}"
      and eq: "s_rate r = s_rate r'"
    from assms(2) obtain a where "s_rate_area ` {r \<in> set df. s_zipcode r = z} = {a}"
      by (auto simp: card_1_singleton_iff)
    with r r' have "s_rate_area r = a" "s_rate_area r' = a" by blast+
    with r r' eq show "r = r'" by simp
  qed
  with assms(1) show ?thesis
    by (simp add: distinct_map)
qed

lemma sort_distinct: "distinct xs \<Longrightarrow> sort xs = sorted_list_of_set (set xs)"
  by (simp add: sorted_list_of_set_sort_remdups distinct_remdups_id)

lemma take_2_last:
  assumes "2 \<le> length l"
  shows "take 2 l \<noteq> [] \<and> last (take 2 l) = l ! 1"
proof -
  from assms obtain a b t where "l = a # b # t"
    by (cases l; cases "tl l") auto
  then show ?thesis by simp
qed

lemma no_lowest_rows:
  "filter (\<lambda>r. zipcode r = z) (no_lowest_df (add_counts df)) =
     (if (group_nunique s_rate_area df z > 1 \<or> group_nunique s_rate df z = 1)
         \<and> filter (\<lambda>r. s_zipcode r = z) df \<noteq> []
      then [\<lparr>zipcode = z, rate = None\<rparr>] else [])"
proof -
  let ?U = "\<lambda>r. unique_area_count r > 1 \<or> unique_rate_count r = 1"
  let ?G = "filter (\<lambda>r. s_zipcode r = z) df"
  have "filter (\<lambda>r. zipcode r = z) (no_lowest_df (add_counts df)) =
      map (\<lambda>r. \<lparr>zipcode = c_zipcode r, rate = None\<rparr>)
        (filter (\<lambda>r. c_zipcode r = z) (drop_duplicates c_zipcode (filter ?U (add_counts df))))"
    by (simp add: no_lowest_df_def filter_map comp_def)
  also have "filter (\<lambda>r. c_zipcode r = z) (drop_duplicates c_zipcode (filter ?U (add_counts df))) =
      (case filter (\<lambda>r. ?U r \<and> c_zipcode r = z) (add_counts df) of [] \<Rightarrow> [] | y # _ \<Rightarrow> [y])"
    by (simp add: filter_drop_duplicates)
  also have "filter (\<lambda>r. ?U r \<and> c_zipcode r = z) (add_counts df) =
      (if group_nunique s_rate_area df z > 1 \<or> group_nunique s_rate df z = 1
       then map (count_row df) ?G else [])"
    by (rule filter_add_counts [where Q = "\<lambda>a b. a > 1 \<or> b = 1"])
  finally have eq: "filter (\<lambda>r. zipcode r = z) (no_lowest_df (add_counts df)) =
      map (\<lambda>r. \<lparr>zipcode = c_zipcode r, rate = None\<rparr>)
        (case (if group_nunique s_rate_area df z > 1 \<or> group_nunique s_rate df z = 1
               then map (count_row df) ?G else []) of [] \<Rightarrow> [] | y # _ \<Rightarrow> [y])" .
  show ?thesis
  proof (cases ?G)
    case Nil
    with eq show ?thesis by simp
  next
    case (Cons r rs)
    then have "r \<in> set ?G" by simp
    then have "s_zipcode r = z" by simp
    with eq Cons show ?thesis by (simp add: count_row_def)
  qed
qed

lemma filter_second_lowest_series:
  "filter (\<lambda>x. fst x = z) (second_lowest_series (add_counts df)) =
      (if group_nunique s_rate_area df z = 1 \<and> group_nunique s_rate df z > 1
       then map (Pair z) (take 2 (sort (map s_rate (filter (\<lambda>r. s_zipcode r = z) df)))) else [])"
proof -
  let ?D = "\<lambda>r. unique_area_count r = 1 \<and> unique_rate_count r > 1"
  have F: "filter (\<lambda>r. c_zipcode r = z) (filter ?D (add_counts df)) =
      (if group_nunique s_rate_area df z = 1 \<and> group_nunique s_rate df z > 1
       then map (count_row df) (filter (\<lambda>r. s_zipcode r = z) df) else [])"
    unfolding filter_filter by (rule filter_add_counts [where Q = "\<lambda>a b. a = 1 \<and> b > 1"])
  show ?thesis
    unfolding second_lowest_series_def filter_groupby_nsmallest F
    by (simp add: comp_def count_row_def)
qed

lemma second_lowest_rows:
  "filter (\<lambda>x. fst x = z) (drop_duplicates_last fst (second_lowest_series (add_counts df))) =
     (if group_nunique s_rate_area df z = 1 \<and> group_nunique s_rate df z > 1
      then [(z, last (take 2 (sort (map s_rate (filter (\<lambda>r. s_zipcode r = z) df)))))] else [])"
proof -
  let ?L = "map s_rate (filter (\<lambda>r. s_zipcode r = z) df)"
  have S: "filter (\<lambda>x. fst x = z) (second_lowest_series (add_counts df)) =
      (if group_nunique s_rate_area df z = 1 \<and> group_nunique s_rate df z > 1
       then map (Pair z) (take 2 (sort ?L)) else [])"
    by (rule filter_second_lowest_series)
  let ?c = "group_nunique s_rate_area df z = 1 \<and> group_nunique s_rate df z > 1"
  let ?S = "second_lowest_series (add_counts df)"
  show ?thesis
  proof (cases ?c)
    case False
    have a: "filter (\<lambda>x. fst x = z) ?S = []"
      unfolding S using False by (rule if_not_P)
    have "filter (\<lambda>x. fst x = z) (drop_duplicates_last fst ?S) = []"
      unfolding filter_drop_duplicates_last a by simp
    moreover have "(if ?c then [(z, last (take 2 (sort ?L)))] else []) = []"
      using False by (rule if_not_P)
    ultimately show ?thesis by (simp only:)
  next
    case True
    then have "?L \<noteq> []"
      by (auto simp: group_nunique_def nunique_def)
    moreover have "length (sort ?L) = length ?L"
      by (rule length_sort)
    ultimately have "sort ?L \<noteq> []"
      by (metis length_0_conv)
    then have ne: "take 2 (sort ?L) \<noteq> []"
      by (cases "sort ?L") simp_all
    have a: "filter (\<lambda>x. fst x = z) ?S = map (Pair z) (take 2 (sort ?L))"
      unfolding S using True by (rule if_P)
    have "filter (\<lambda>x. fst x = z) (drop_duplicates_last fst ?S) = [(z, last (take 2 (sort ?L)))]"
      unfolding filter_drop_duplicates_last a using ne by (simp add: last_map)
    moreover have "(if ?c then [(z, last (take 2 (sort ?L)))] else []) = [(z, last (take 2 (sort ?L)))]"
      using True by (rule if_P)
    ultimately show ?thesis by (simp only:)
  qed
qed

lemma second_lowest_value:
  assumes "card (zip_areas zs ps z) = 1" and "2 \<le> card (zip_rates zs ps z)"
  shows "last (take 2 (sort (map s_rate (filter (\<lambda>r. s_zipcode r = z)
           (drop_duplicates subset_key (silver_rates zs ps)))))) = second_smallest (zip_rates zs ps z)"
proof -
  let ?df = "drop_duplicates subset_key (silver_rates zs ps)"
  let ?L = "map s_rate (filter (\<lambda>r. s_zipcode r = z) ?df)"
  have "card (s_rate_area ` {r \<in> set ?df. s_zipcode r = z}) = 1"
    using assms(1) by (simp only: set_dedup zip_areas_frame)
  with distinct_dedup have "distinct ?L"
    by (rule distinct_group_rates)
  then have "sort ?L = sorted_list_of_set (set ?L)"
    by (rule sort_distinct)
  also have "set ?L = zip_rates zs ps z"
    by (rule group_rates_dedup)
  finally have s: "sort ?L = sorted_list_of_set (zip_rates zs ps z)" .
  have "length (sorted_list_of_set (zip_rates zs ps z)) = card (zip_rates zs ps z)"
    by simp
  with assms(2) have "2 \<le> length (sorted_list_of_set (zip_rates zs ps z))"
    by simp
  then have "last (take 2 (sorted_list_of_set (zip_rates zs ps z))) =
      sorted_list_of_set (zip_rates zs ps z) ! 1"
    by (simp add: take_2_last)
  with s show ?thesis
    by (simp add: second_smallest_def)
qed

section \<open>What \<^verbatim>\<open>find_slcsp\<close> returns\<close>

text \<open>
  Whenever \<^verbatim>\<open>find_slcsp\<close> returns a frame, the rows of a zip code in it are: none when the
  zip code has no Silver candidate, one row with the second-smallest rate when its candidates
  lie in one rating area with two or more rates, and one row with an undefined rate otherwise.
\<close>

lemma find_slcsp_Inr:
  assumes "find_slcsp zs ps = Inr res"
  shows "res = map (\<lambda>(z, v). \<lparr>zipcode = z, rate = Some v\<rparr>)
             (drop_duplicates_last fst (second_lowest_series (silver_rates_df zs ps)))
           @ no_lowest_df (silver_rates_df zs ps)"
  using assms
  by (auto simp: find_slcsp_def reset_index_drop_level_1_def Let_def split: if_splits)

lemma find_slcsp_rows:
  assumes "find_slcsp zs ps = Inr res"
  shows "filter (\<lambda>r. zipcode r = z) res =
     (if zip_rates zs ps z = {} then []
      else if card (zip_areas zs ps z) = 1 \<and> 2 \<le> card (zip_rates zs ps z)
           then [\<lparr>zipcode = z, rate = Some (second_smallest (zip_rates zs ps z))\<rparr>]
           else [\<lparr>zipcode = z, rate = None\<rparr>])"
proof -
  let ?df = "drop_duplicates subset_key (silver_rates zs ps)"
  let ?mk = "\<lambda>(z, v). \<lparr>zipcode = z, rate = Some v\<rparr>"
  let ?S = "drop_duplicates_last fst (second_lowest_series (add_counts ?df))"
  let ?a = "card (zip_areas zs ps z)" and ?r = "card (zip_rates zs ps z)"
  have "filter (\<lambda>r. zipcode r = z) (map ?mk ?S) = map ?mk (filter (\<lambda>x. fst x = z) ?S)"
    unfolding filter_map by (rule arg_cong [where f = "map ?mk"], rule filter_cong) auto
  with find_slcsp_Inr [OF assms]
  have res: "filter (\<lambda>r. zipcode r = z) res =
      map ?mk (filter (\<lambda>x. fst x = z) ?S) @ filter (\<lambda>r. zipcode r = z) (no_lowest_df (add_counts ?df))"
    by (simp add: silver_rates_df_def)
  have ne: "filter (\<lambda>r. s_zipcode r = z) ?df \<noteq> [] \<longleftrightarrow> zip_rates zs ps z \<noteq> {}"
    using group_rates_dedup [of z zs ps] by (metis map_is_Nil_conv set_empty)
  have sec: "filter (\<lambda>x. fst x = z) ?S =
      (if ?a = 1 \<and> ?r > 1
       then [(z, last (take 2 (sort (map s_rate (filter (\<lambda>r. s_zipcode r = z) ?df)))))] else [])"
    unfolding second_lowest_rows area_count_dedup rate_count_dedup ..
  have nol: "filter (\<lambda>r. zipcode r = z) (no_lowest_df (add_counts ?df)) =
      (if (?a > 1 \<or> ?r = 1) \<and> zip_rates zs ps z \<noteq> {} then [\<lparr>zipcode = z, rate = None\<rparr>] else [])"
    unfolding no_lowest_rows area_count_dedup rate_count_dedup ne ..
  show ?thesis
  proof (cases "zip_rates zs ps z = {}")
    case True
    then show ?thesis
      unfolding res sec nol by simp
  next
    case False
    then have r1: "1 \<le> ?r"
      using finite_zip_rates [of zs ps z] by (simp add: Suc_le_eq card_gt_0_iff)
    from False have "zip_areas zs ps z \<noteq> {}"
      by (simp add: zip_areas_empty_iff)
    then have a1: "1 \<le> ?a"
      using finite_zip_areas [of zs ps z] by (simp add: Suc_le_eq card_gt_0_iff)
    show ?thesis
    proof (cases "?a = 1 \<and> 2 \<le> ?r")
      case True
      then have "last (take 2 (sort (map s_rate (filter (\<lambda>r. s_zipcode r = z) ?df)))) =
          second_smallest (zip_rates zs ps z)"
        by (simp add: second_lowest_value)
      with True False show ?thesis
        unfolding res sec nol by simp
    next
      case nd: False
      with a1 r1 have "?a > 1 \<or> ?r = 1" by arith
      moreover from nd have "\<not> (?a = 1 \<and> ?r > 1)" by arith
      ultimately show ?thesis
        using False nd unfolding res sec nol by simp
    qed
  qed
qed

lemma find_slcsp_rows_select:
  assumes "find_slcsp zs ps = Inr res"
  shows "filter (\<lambda>r. zipcode r = z) res =
     (if zip_rates zs ps z = {} then [] else [\<lparr>zipcode = z, rate = selectRates zs ps z\<rparr>])"
  unfolding find_slcsp_rows [OF assms] selectRates_def by simp

lemma selectRates_no_candidates: "zip_rates zs ps z = {} \<Longrightarrow> selectRates zs ps z = None"
  by (simp add: selectRates_def)

text \<open>
  \<^verbatim>\<open>find_slcsp\<close> returns a frame exactly when some zip code has one rating area and two
  or more rates; on every other input the series of second-lowest rates has no rows and
  dropping \<^verbatim>\<open>level_1\<close> raises.
\<close>

lemma find_slcsp_returns_iff:
  "(\<exists>res. find_slcsp zs ps = Inr res) \<longleftrightarrow>
     (\<exists>z. card (zip_areas zs ps z) = 1 \<and> 2 \<le> card (zip_rates zs ps z))"
proof -
  let ?df = "drop_duplicates subset_key (silver_rates zs ps)"
  let ?S = "second_lowest_series (add_counts ?df)"
  have ret: "(\<exists>res. find_slcsp zs ps = Inr res) \<longleftrightarrow> ?S \<noteq> []"
    by (auto simp: find_slcsp_def reset_index_drop_level_1_def Let_def silver_rates_df_def)
  have grp: "filter (\<lambda>x. fst x = z) ?S =
      (if card (zip_areas zs ps z) = 1 \<and> card (zip_rates zs ps z) > 1
       then map (Pair z) (take 2 (sort (map s_rate (filter (\<lambda>r. s_zipcode r = z) ?df)))) else [])" for z
    unfolding filter_second_lowest_series area_count_dedup rate_count_dedup ..
  have "?S \<noteq> [] \<longleftrightarrow> (\<exists>z. card (zip_areas zs ps z) = 1 \<and> 2 \<le> card (zip_rates zs ps z))"
  proof
    assume "?S \<noteq> []"
    then obtain x where "x \<in> set ?S" by (cases ?S) auto
    then have "filter (\<lambda>y. fst y = fst x) ?S \<noteq> []"
      by (auto simp: filter_empty_conv)
    then have "card (zip_areas zs ps (fst x)) = 1 \<and> card (zip_rates zs ps (fst x)) > 1"
      unfolding grp by (simp split: if_splits)
    then show "\<exists>z. card (zip_areas zs ps z) = 1 \<and> 2 \<le> card (zip_rates zs ps z)"
      by (intro exI [of _ "fst x"]) simp
  next
    assume "\<exists>z. card (zip_areas zs ps z) = 1 \<and> 2 \<le> card (zip_rates zs ps z)"
    then obtain z where z: "card (zip_areas zs ps z) = 1" "2 \<le> card (zip_rates zs ps z)"
      by blast
    let ?L = "map s_rate (filter (\<lambda>r. s_zipcode r = z) ?df)"
    from z(2) have "zip_rates zs ps z \<noteq> {}" by auto
    then have "?L \<noteq> []"
      using group_rates_dedup [of z zs ps] by (metis set_empty)
    moreover have "length (sort ?L) = length ?L" by (rule length_sort)
    ultimately have "sort ?L \<noteq> []" by (metis length_0_conv)
    then have "take 2 (sort ?L) \<noteq> []" by (cases "sort ?L") simp_all
    with z have "filter (\<lambda>x. fst x = z) ?S \<noteq> []"
      unfolding grp by simp
    then show "?S \<noteq> []" by auto
  qed
  with ret show ?thesis by simp
qed

text \<open>
  When \<^verbatim>\<open>find_slcsp\<close> returns, the printed table is the target list, row for row, with
  the rate of the selection rule.
\<close>

lemma merge_left_select:
  assumes "find_slcsp zs ps = Inr res"
  shows "merge_left targets res = map (\<lambda>z. \<lparr>zipcode = z, rate = selectRates zs ps z\<rparr>) targets"
proof -
  have "(case filter (\<lambda>r. zipcode r = z) res of
           [] \<Rightarrow> [\<lparr>zipcode = z, rate = None\<rparr>]
         | ms \<Rightarrow> map (\<lambda>m. \<lparr>zipcode = z, rate = rate m\<rparr>) ms) =
        [\<lparr>zipcode = z, rate = selectRates zs ps z\<rparr>]" for z
    unfolding find_slcsp_rows_select [OF assms]
    by (simp add: selectRates_no_candidates)
  then show ?thesis
    by (simp add: merge_left_def)
qed

lemma output_slcsp_select:
  assumes "find_slcsp zs ps = Inr res"
  shows "output_slcsp zs ps t =
    Inr (map (\<lambda>r. \<lparr>zipcode = zipcode r, rate = selectRates zs ps (zipcode r)\<rparr>) t)"
  by (simp add: output_slcsp_def assms merge_left_select [OF assms] comp_def)

lemma candidates_invariant:
  assumes zs: "mset zs' = mset zs"
    and ps: "mset ps' = mset ps + mset extra"
    and ex: "\<forall>e\<in>set extra. \<exists>p\<in>set ps. p_metal_level p = ''Silver'' \<and> p_key p = p_key e \<and>
      p_rate p = p_rate e"
  shows "zip_areas zs' ps' z = zip_areas zs ps z" and "zip_rates zs' ps' z = zip_rates zs ps z"
proof -
  from zs have szs: "set zs' = set zs" by (rule mset_eq_setD)
  from ps have sps: "set ps' = set ps \<union> set extra"
    by (metis set_mset_mset set_mset_union)
  have dup: "\<exists>p\<in>set ps. p_key p = p_key e \<and> p_metal_level p = ''Silver'' \<and> p_rate p = p_rate e"
    if "e \<in> set ps'" and "p_metal_level e = ''Silver''" for e
  proof (cases "e \<in> set ps")
    case True
    with that(2) show ?thesis by blast
  next
    case False
    with that(1) sps have "e \<in> set extra" by blast
    with ex show ?thesis by blast
  qed
  have sub: "set ps \<subseteq> set ps'" using sps by blast
  show "zip_areas zs' ps' z = zip_areas zs ps z"
    unfolding zip_areas_set szs
  proof (intro set_eqI iffI)
    fix a
    assume "a \<in> {z_key zr | zr p. zr \<in> set zs \<and> z_zipcode zr = z \<and> p \<in> set ps' \<and>
      p_key p = z_key zr \<and> p_metal_level p = ''Silver''}"
    then obtain zr e where h: "a = z_key zr" "zr \<in> set zs" "z_zipcode zr = z" "e \<in> set ps'"
      "p_key e = z_key zr" "p_metal_level e = ''Silver''" by blast
    from dup [OF h(4) h(6)] obtain p where "p \<in> set ps" "p_key p = p_key e"
      "p_metal_level p = ''Silver''" by blast
    with h show "a \<in> {z_key zr | zr p. zr \<in> set zs \<and> z_zipcode zr = z \<and> p \<in> set ps \<and>
      p_key p = z_key zr \<and> p_metal_level p = ''Silver''}" by auto
  next
    fix a
    assume "a \<in> {z_key zr | zr p. zr \<in> set zs \<and> z_zipcode zr = z \<and> p \<in> set ps \<and>
      p_key p = z_key zr \<and> p_metal_level p = ''Silver''}"
    with sub show "a \<in> {z_key zr | zr p. zr \<in> set zs \<and> z_zipcode zr = z \<and> p \<in> set ps' \<and>
      p_key p = z_key zr \<and> p_metal_level p = ''Silver''}" by blast
  qed
  show "zip_rates zs' ps' z = zip_rates zs ps z"
    unfolding zip_rates_set szs
  proof (intro set_eqI iffI)
    fix a
    assume "a \<in> {p_rate p | zr p. zr \<in> set zs \<and> z_zipcode zr = z \<and> p \<in> set ps' \<and>
      p_key p = z_key zr \<and> p_metal_level p = ''Silver''}"
    then obtain zr e where h: "a = p_rate e" "zr \<in> set zs" "z_zipcode zr = z" "e \<in> set ps'"
      "p_key e = z_key zr" "p_metal_level e = ''Silver''" by blast
    from dup [OF h(4) h(6)] obtain p where "p \<in> set ps" "p_key p = p_key e"
      "p_metal_level p = ''Silver''" "p_rate p = p_rate e" by blast
    with h show "a \<in> {p_rate p | zr p. zr \<in> set zs \<and> z_zipcode zr = z \<and> p \<in> set ps \<and>
      p_key p = z_key zr \<and> p_metal_level p = ''Silver''}" by (simp, metis)
  next
    fix a
    assume "a \<in> {p_rate p | zr p. zr \<in> set zs \<and> z_zipcode zr = z \<and> p \<in> set ps \<and>
      p_key p = z_key zr \<and> p_metal_level p = ''Silver''}"
    with sub show "a \<in> {p_rate p | zr p. zr \<in> set zs \<and> z_zipcode zr = z \<and> p \<in> set ps' \<and>
      p_key p = z_key zr \<and> p_metal_level p = ''Silver''}" by blast
  qed
qed

lemma filter_silver_merge:
  "filter is_silver (merge_on_rate_area zs ps) = merge_on_rate_area zs (silver_subset ps)"
proof (induction zs)
  case Nil
  show ?case by (simp add: merge_on_rate_area_def)
next
  case (Cons z zs)
  have "filter is_silver (map (join_row z) (filter (\<lambda>p. p_key p = z_key z) ps)) =
      map (join_row z) (filter (\<lambda>p. p_key p = z_key z) (silver_subset ps))"
    by (simp add: filter_map comp_def is_silver_join_row silver_subset_def conj_commute)
  with Cons show ?case
    by (simp add: merge_on_rate_area_def)
qed

section \<open>The claims\<close>

text \<open>
  Claim C1: every zip code of the deduplicated candidate relation gets a rate, defined when
  its candidates lie in one rating area with two or more distinct rates and undefined
  otherwise. The rows that \<^verbatim>\<open>find_slcsp\<close> returns follow this rule (\<open>find_slcsp_rows\<close>),
  but a frame is returned only if some zip code has a defined rate. Here zip code 33333 is a
  candidate with the one rating area CA 5 and the one rate 180, and \<^verbatim>\<open>find_slcsp\<close>
  raises instead of giving it the undefined rate.
\<close>

theorem single_rate_zip_raises:
  "zip_areas [zips_line 33333 ''CA'' 5] [plans_line ''P1'' ''CA'' ''Silver'' 180 5] 33333 = {''CA 5''} \<and>
   zip_rates [zips_line 33333 ''CA'' 5] [plans_line ''P1'' ''CA'' ''Silver'' 180 5] 33333 = {180} \<and>
   find_slcsp [zips_line 33333 ''CA'' 5] [plans_line ''P1'' ''CA'' ''Silver'' 180 5] =
     Inl (KeyError ''level_1'')"
  by code_simp

text \<open>
  Claim C2: for a zip code whose candidates lie in exactly one rating area with two or more
  distinct Silver rates, \<^verbatim>\<open>find_slcsp\<close> returns a frame whose only row for the zip code
  carries the second-smallest of its distinct rates, and the row stays the same when the rows
  of both tables are permuted and plan rows are added whose rating area and rate are those
  of a Silver plan already there.
\<close>

theorem second_lowest_selected:
  assumes "card (zip_areas zs ps z) = 1" and "2 \<le> card (zip_rates zs ps z)"
    and "mset zs' = mset zs"
    and "mset ps' = mset ps + mset extra"
    and "\<forall>e\<in>set extra. \<exists>p\<in>set ps. p_metal_level p = ''Silver'' \<and> p_key p = p_key e \<and>
      p_rate p = p_rate e"
  shows "\<exists>res res'. find_slcsp zs ps = Inr res \<and> find_slcsp zs' ps' = Inr res' \<and>
    filter (\<lambda>r. zipcode r = z) res =
      [\<lparr>zipcode = z, rate = Some (second_smallest (zip_rates zs ps z))\<rparr>] \<and>
    filter (\<lambda>r. zipcode r = z) res' = filter (\<lambda>r. zipcode r = z) res"
proof -
  have a': "zip_areas zs' ps' z = zip_areas zs ps z" and r': "zip_rates zs' ps' z = zip_rates zs ps z"
    using assms(3-5) by (rule candidates_invariant)+
  from assms(1,2) obtain res where res: "find_slcsp zs ps = Inr res"
    using find_slcsp_returns_iff [of zs ps] by blast
  have "card (zip_areas zs' ps' z) = 1 \<and> 2 \<le> card (zip_rates zs' ps' z)"
    unfolding a' r' using assms(1,2) by (rule conjI)
  then have "\<exists>z. card (zip_areas zs' ps' z) = 1 \<and> 2 \<le> card (zip_rates zs' ps' z)"
    by (rule exI)
  then obtain res' where res': "find_slcsp zs' ps' = Inr res'"
    using find_slcsp_returns_iff [of zs' ps'] by blast
  from assms(2) have ne: "zip_rates zs ps z \<noteq> {}" by auto
  have "filter (\<lambda>r. zipcode r = z) res =
      [\<lparr>zipcode = z, rate = Some (second_smallest (zip_rates zs ps z))\<rparr>]"
    using find_slcsp_rows [OF res, of z] assms(1,2) ne by simp
  moreover have "filter (\<lambda>r. zipcode r = z) res' =
      [\<lparr>zipcode = z, rate = Some (second_smallest (zip_rates zs ps z))\<rparr>]"
    using find_slcsp_rows [OF res', of z] assms(1,2) ne a' r' by simp
  ultimately show ?thesis using res res' by simp
qed

theorem second_lowest_selected_witness:
  "card (zip_areas ny1_zips ny1_plans 11111) = 1 \<and> 2 \<le> card (zip_rates ny1_zips ny1_plans 11111) \<and>
   mset ny1_zips_perm = mset ny1_zips \<and> mset ny1_plans_dup = mset ny1_plans + mset ny1_extra \<and>
   ny1_extra = [plans_line ''P3'' ''NY'' ''Silver'' 150 1] \<and>
   plans_line ''P2'' ''NY'' ''Silver'' 150 1 \<in> set ny1_plans \<and>
   second_smallest (zip_rates ny1_zips ny1_plans 11111) = 200 \<and>
   (\<exists>res res'. find_slcsp ny1_zips ny1_plans = Inr res \<and>
      find_slcsp ny1_zips_perm ny1_plans_dup = Inr res' \<and>
      filter (\<lambda>r. zipcode r = 11111) res =
        [\<lparr>zipcode = 11111, rate = Some (second_smallest (zip_rates ny1_zips ny1_plans 11111))\<rparr>] \<and>
      filter (\<lambda>r. zipcode r = 11111) res' = filter (\<lambda>r. zipcode r = 11111) res)"
proof -
  have h1: "card (zip_areas ny1_zips ny1_plans 11111) = 1" by code_simp
  have h2: "2 \<le> card (zip_rates ny1_zips ny1_plans 11111)" by code_simp
  have h3: "mset ny1_zips_perm = mset ny1_zips"
    by (simp add: ny1_zips_perm_def ny1_zips_def)
  have h4: "mset ny1_plans_dup = mset ny1_plans + mset ny1_extra"
    by (simp add: ny1_plans_dup_def ny1_plans_def ny1_extra_def)
  have h5: "\<forall>e\<in>set ny1_extra. \<exists>p\<in>set ny1_plans. p_metal_level p = ''Silver'' \<and>
      p_key p = p_key e \<and> p_rate p = p_rate e"
    by (simp add: ny1_plans_def ny1_extra_def plans_line_def p_key_def)
  have h6: "ny1_extra = [plans_line ''P3'' ''NY'' ''Silver'' 150 1]"
    by (rule ny1_extra_def)
  have h7: "plans_line ''P2'' ''NY'' ''Silver'' 150 1 \<in> set ny1_plans"
    by (simp add: ny1_plans_def)
  have h8: "second_smallest (zip_rates ny1_zips ny1_plans 11111) = 200" by code_simp
  from h1 h2 h3 h4 h6 h7 h8 second_lowest_selected [OF h1 h2 h3 h4 h5] show ?thesis
    by (intro conjI)
qed

text \<open>
  Claim C3: the printed table has the rows of the target list in the order of the target
  list, a zip code without a computed entry with the undefined rate. This holds whenever
  \<^verbatim>\<open>find_slcsp\<close> returns (\<open>output_slcsp_select\<close>). Here the tables hold no zip code
  with a second rate, the target list asks for the unknown zip code 44444, and no table is
  printed: the call raises.
\<close>

theorem unknown_zip_not_printed:
  "output_slcsp [zips_line 33333 ''CA'' 5] [plans_line ''P1'' ''CA'' ''Silver'' 180 5]
     [\<lparr>zipcode = 44444, rate = None\<rparr>] = Inl (KeyError ''level_1'')"
  by code_simp

text \<open>
  Claim C4: on well-typed tables the transform never raises; a missing zip code, an ambiguous
  rating area and a single rate all end in an undefined rate. On each of these three inputs
  (no rows at all, a zip code in two rating areas, a zip code with a single rate) no zip code
  has a second-lowest rate, and \<^verbatim>\<open>find_slcsp\<close> raises \<^verbatim>\<open>KeyError\<close>.
\<close>

theorem undetermined_only_raises:
  "find_slcsp [] [] = Inl (KeyError ''level_1'') \<and>
   find_slcsp [zips_line 22222 ''NY'' 1, zips_line 22222 ''NY'' 2]
     [plans_line ''P1'' ''NY'' ''Silver'' 200 1, plans_line ''P2'' ''NY'' ''Silver'' 150 1,
      plans_line ''P3'' ''NY'' ''Silver'' 210 2] = Inl (KeyError ''level_1'') \<and>
   find_slcsp [zips_line 33333 ''CA'' 5] [plans_line ''P1'' ''CA'' ''Silver'' 180 5] =
     Inl (KeyError ''level_1'')"
  by code_simp

text \<open>
  Claim C5: the frame returned by \<^verbatim>\<open>find_slcsp\<close> has at most one row per zip code, and
  no zip code is in both the group with a second-lowest rate and the group without.
\<close>

theorem find_slcsp_unique_zipcode:
  "(find_slcsp zs ps = Inr res \<longrightarrow> distinct (map zipcode res)) \<and>
   fst ` set (second_lowest_series (silver_rates_df zs ps)) \<inter>
     zipcode ` set (no_lowest_df (silver_rates_df zs ps)) = {}"
proof
  show "find_slcsp zs ps = Inr res \<longrightarrow> distinct (map zipcode res)"
  proof
    assume r: "find_slcsp zs ps = Inr res"
    have "length (filter (\<lambda>x. zipcode x = k) res) \<le> 1" for k
      unfolding find_slcsp_rows [OF r] by simp
    then show "distinct (map zipcode res)"
      by (rule distinct_key_if_filter_le_1)
  qed
next
  let ?df = "drop_duplicates subset_key (silver_rates zs ps)"
  let ?S = "second_lowest_series (add_counts ?df)"
  let ?N = "no_lowest_df (add_counts ?df)"
  have "False" if s: "z \<in> fst ` set ?S" and n: "z \<in> zipcode ` set ?N" for z
  proof -
    from s have "filter (\<lambda>x. fst x = z) ?S \<noteq> []"
      by (auto simp: filter_empty_conv)
    then have d: "group_nunique s_rate_area ?df z = 1 \<and> group_nunique s_rate ?df z > 1"
      unfolding filter_second_lowest_series by (simp split: if_splits)
    from n have "filter (\<lambda>r. zipcode r = z) ?N \<noteq> []"
      by (auto simp: filter_empty_conv)
    then have "group_nunique s_rate_area ?df z > 1 \<or> group_nunique s_rate ?df z = 1"
      unfolding no_lowest_rows by (simp split: if_splits)
    with d show False by arith
  qed
  then show "fst ` set (second_lowest_series (silver_rates_df zs ps)) \<inter>
     zipcode ` set (no_lowest_df (silver_rates_df zs ps)) = {}"
    unfolding silver_rates_df_def by blast
qed

theorem find_slcsp_unique_zipcode_witness:
  "find_slcsp ny1_zips ny1_plans =
     Inr [\<lparr>zipcode = 11111, rate = Some 200\<rparr>, \<lparr>zipcode = 22222, rate = None\<rparr>] \<and>
   distinct (map zipcode [\<lparr>zipcode = 11111, rate = Some 200\<rparr>, \<lparr>zipcode = 22222, rate = None\<rparr>])"
proof -
  have h: "find_slcsp ny1_zips ny1_plans =
      Inr [\<lparr>zipcode = 11111, rate = Some 200\<rparr>, \<lparr>zipcode = 22222, rate = None\<rparr>]"
    by code_simp
  with find_slcsp_unique_zipcode [of ny1_zips ny1_plans
      "[\<lparr>zipcode = 11111, rate = Some 200\<rparr>, \<lparr>zipcode = 22222, rate = None\<rparr>]"]
  show ?thesis by blast
qed

text \<open>
  Claim C6: zip code 11111 lies in the single rating area NY 1, whose Silver plans cost
  200, 150 and 150. The duplicate 150 is dropped before the rates are counted and ranked,
  the remaining rates are 200 and 150, and the selected rate is 200.
\<close>

theorem duplicate_rate_scenario:
  "find_slcsp [zips_line 11111 ''NY'' 1]
     [plans_line ''P1'' ''NY'' ''Silver'' 200 1, plans_line ''P2'' ''NY'' ''Silver'' 150 1,
      plans_line ''P3'' ''NY'' ''Silver'' 150 1] = Inr [\<lparr>zipcode = 11111, rate = Some 200\<rparr>] \<and>
   map c_rate (silver_rates_df [zips_line 11111 ''NY'' 1]
     [plans_line ''P1'' ''NY'' ''Silver'' 200 1, plans_line ''P2'' ''NY'' ''Silver'' 150 1,
      plans_line ''P3'' ''NY'' ''Silver'' 150 1]) = [200, 150]"
  by code_simp

text \<open>
  Claim C7: the rates in the target file have no influence: two target lists with the same
  zip codes in the same order give the same result, and whenever a table is printed each of
  its rates is the one computed for the zip code of the row.
\<close>

theorem target_rates_ignored:
  assumes "map zipcode t1 = map zipcode t2"
  shows "output_slcsp zs ps t1 = output_slcsp zs ps t2 \<and>
    (\<forall>res. find_slcsp zs ps = Inr res \<longrightarrow>
       output_slcsp zs ps t1 =
         Inr (map (\<lambda>r. \<lparr>zipcode = zipcode r, rate = selectRates zs ps (zipcode r)\<rparr>) t1))"
proof
  show "output_slcsp zs ps t1 = output_slcsp zs ps t2"
    unfolding output_slcsp_def using assms by (cases "find_slcsp zs ps") simp_all
  show "\<forall>res. find_slcsp zs ps = Inr res \<longrightarrow>
       output_slcsp zs ps t1 =
         Inr (map (\<lambda>r. \<lparr>zipcode = zipcode r, rate = selectRates zs ps (zipcode r)\<rparr>) t1)"
    by (intro allI impI) (rule output_slcsp_select)
qed

theorem target_rates_ignored_witness:
  "map zipcode [\<lparr>zipcode = 11111, rate = Some 999\<rparr>, \<lparr>zipcode = 44444, rate = Some 1\<rparr>] =
     map zipcode [\<lparr>zipcode = 11111, rate = None\<rparr>, \<lparr>zipcode = 44444, rate = None\<rparr>] \<and>
   output_slcsp ny1_zips ny1_plans [\<lparr>zipcode = 11111, rate = Some 999\<rparr>, \<lparr>zipcode = 44444, rate = Some 1\<rparr>] =
     output_slcsp ny1_zips ny1_plans [\<lparr>zipcode = 11111, rate = None\<rparr>, \<lparr>zipcode = 44444, rate = None\<rparr>] \<and>
   output_slcsp ny1_zips ny1_plans [\<lparr>zipcode = 11111, rate = Some 999\<rparr>, \<lparr>zipcode = 44444, rate = Some 1\<rparr>] =
     Inr [\<lparr>zipcode = 11111, rate = Some 200\<rparr>, \<lparr>zipcode = 44444, rate = None\<rparr>]"
proof -
  have h: "map zipcode [\<lparr>zipcode = 11111, rate = Some 999\<rparr>, \<lparr>zipcode = 44444, rate = Some 1\<rparr>] =
      map zipcode [\<lparr>zipcode = 11111, rate = None\<rparr>, \<lparr>zipcode = 44444, rate = None\<rparr>]"
    by simp
  have v: "output_slcsp ny1_zips ny1_plans
      [\<lparr>zipcode = 11111, rate = Some 999\<rparr>, \<lparr>zipcode = 44444, rate = Some 1\<rparr>] =
      Inr [\<lparr>zipcode = 11111, rate = Some 200\<rparr>, \<lparr>zipcode = 44444, rate = None\<rparr>]"
    by code_simp
  from target_rates_ignored [OF h, of ny1_zips ny1_plans]
  have "output_slcsp ny1_zips ny1_plans
      [\<lparr>zipcode = 11111, rate = Some 999\<rparr>, \<lparr>zipcode = 44444, rate = Some 1\<rparr>] =
      output_slcsp ny1_zips ny1_plans [\<lparr>zipcode = 11111, rate = None\<rparr>, \<lparr>zipcode = 44444, rate = None\<rparr>]"
    by (rule conjunct1)
  with h v show ?thesis by (intro conjI)
qed

text \<open>
  Claim C9: a zip code of the zip-area table whose rating areas have no Silver plan is not in
  the frame returned by \<^verbatim>\<open>find_slcsp\<close> and is printed with the undefined rate. Whenever
  \<^verbatim>\<open>find_slcsp\<close> returns this is so (\<open>find_slcsp_rows\<close>, \<open>output_slcsp_select\<close>).
  Here zip code 12345 lies in NY 1, which has a Gold plan only; it has no candidate rate, and
  nothing is printed for it: the call raises.
\<close>

theorem no_silver_zip_raises:
  "zip_rates [zips_line 12345 ''NY'' 1] [plans_line ''P1'' ''NY'' ''Gold'' 300 1] 12345 = {} \<and>
   output_slcsp [zips_line 12345 ''NY'' 1] [plans_line ''P1'' ''NY'' ''Gold'' 300 1]
     [\<lparr>zipcode = 12345, rate = None\<rparr>] = Inl (KeyError ''level_1'')"
  by code_simp

text \<open>
  Claim C10: joining the zip-area table with all plans and then keeping the Silver rows, as
  the program does, gives the same frame as joining with the Silver plans only, as the
  specification describes the step; the candidate rows are the same.
\<close>

theorem join_then_filter_refines:
  "filter is_silver (merge_on_rate_area zs ps) = merge_on_rate_area zs (silver_subset ps) \<and>
   silver_rates zs ps = buildCandidateSets_join zs ps"
  by (simp add: filter_silver_merge silver_rates_def buildCandidateSets_join_def)

end
